theory Spec2Isabelle
  imports Main "HOL-Library.AList"
begin

section \<open>The configuration commands of cmd/config.go\<close>

text \<open>
  The file cmd/config.go defines the sub-commands \<open>print\<close>, \<open>info\<close>, \<open>view\<close> and
  \<open>set\<close> of \<open>config\<close>. They act on three process-wide objects: the viper
  key/value store, the file viper was loaded from, and the logger \<open>util.Logger\<close>.
  The model passes these around as one record and returns it updated.
\<close>

subsection \<open>Data\<close>

text \<open>
  A value held by viper is an \<open>interface{}\<close>: its dynamic type is part of it, and Go's
  \<open>==\<close> between an \<open>interface{}\<close> and a string is true only for a string of equal
  contents.
\<close>

datatype cfg_value = VString string | VBool bool | VInt int

text \<open>
  The levels of logrus. Modelled from the spec: the three formatter variants; their
  constructors \<open>util.NewRuntimeFormatter\<close>, \<open>util.NewJSONFormatter\<close> and
  \<open>util.NewTextFormatter\<close> belong to internal/eiamutil, which is not part of the
  sources at hand.
\<close>

datatype Level =
  PanicLevel | FatalLevel | ErrorLevel | WarnLevel | InfoLevel | DebugLevel | TraceLevel

datatype Formatter = RuntimeFormatter | JSONFormatter | TextFormatter

text \<open>
  \<open>errorsutil.EiamError\<close> carries a message and the underlying error (its \<open>Log\<close> field
  is the logger entry built from that same error and adds no information).
\<close>

record EiamError =
  Msg :: string
  Err :: string

text \<open>
  What a command does to the outside, in order: text printed on standard output, calls
  of the logger, and completed writes of the backing file. A call of the logger is
  recorded as a call, whether or not the level of the logger lets the line through.
\<close>

datatype fmt_arg = ArgString string | ArgValue "cfg_value option"

datatype event =
  Printf string
  | LoggerWarn string
  | LoggerInfof string "fmt_arg list"
  | WroteConfig string

text \<open>
  How a write of the backing file fails. \<open>viper.WriteConfig\<close> (viper v1.7.1, the
  version of go.mod) checks the type of the file, opens the file with \<open>O_TRUNC\<close>,
  encodes the settings into it and syncs it. An error before the file is open (an
  unknown type, a refused open) leaves the file as it was; an error after that leaves
  the file with as many bytes of the new encoding as reached it, none at all when the
  encoder failed, all of them when only the sync failed.
\<close>

datatype write_fault = FailsBeforeOpen string | FailsAfterOpen string nat

fun fault_cause :: "write_fault \<Rightarrow> string" where
  "fault_cause (FailsBeforeOpen e) = e"
| "fault_cause (FailsAfterOpen e n) = e"

text \<open>
  The state: the settings of viper as an association list, the bytes of the file at
  \<open>viper.ConfigFileUsed()\<close>, the error a read of it meets and the way a write of it
  fails (\<open>None\<close> when it goes through), the level and formatter of \<open>util.Logger\<close>,
  and the events so far.
\<close>

record state =
  store :: "(string \<times> cfg_value) list"
  file_bytes :: string
  read_err :: "string option"
  write_err :: "write_fault option"
  logger_level :: Level
  logger_formatter :: Formatter
  trace :: "event list"

text \<open>The result of running a command: Go's \<open>nil\<close> error, an error, or a runtime panic.\<close>

datatype outcome = Success | Failure EiamError | IndexOutOfRange

subsection \<open>Package-level variables\<close>

definition LoggingLevels :: "string list" where
  "LoggingLevels = [''trace'', ''debug'', ''info'', ''warn'', ''error'', ''fatal'', ''panic'']"

definition LoggingFormats :: "string list" where
  "LoggingFormats = [''text'', ''json'', ''debug'']"

definition BoolConfigFields :: "string list" where
  "BoolConfigFields =
     [''authproxy.verbose'', ''logging.disableleveltruncation'', ''logging.padleveltext'']"

subsection \<open>Collaborators\<close>

text \<open>
  Modelled from the spec: \<open>util.Contains\<close> of internal/eiamutil, which is not part of the
  sources at hand. The specification reads every use of it as membership of a string in
  a list of strings.
\<close>

definition Contains :: "string list \<Rightarrow> string \<Rightarrow> bool" where
  "Contains xs x = (x \<in> set xs)"

text \<open>
  \<open>strconv.ParseBool\<close> of the Go standard library accepts exactly twelve literals.
\<close>

definition ParseBool :: "string \<Rightarrow> bool option" where
  "ParseBool str =
     (if str \<in> set [''1'', ''t'', ''T'', ''TRUE'', ''true'', ''True''] then Some True
      else if str \<in> set [''0'', ''f'', ''F'', ''FALSE'', ''false'', ''False''] then Some False
      else None)"

text \<open>
  \<open>logrus.ParseLevel\<close> lower-cases its argument and compares it with the level names;
  \<open>warning\<close> is a second name of \<open>WarnLevel\<close>. The lower-casing is modelled on ASCII
  letters, other bytes are kept.
\<close>

definition ToLower_char :: "char \<Rightarrow> char" where
  "ToLower_char c =
     (let n = (of_char c :: nat) in if 65 \<le> n \<and> n \<le> 90 then char_of (n + 32) else c)"

definition ToLower :: "string \<Rightarrow> string" where
  "ToLower str = map ToLower_char str"

definition ParseLevel :: "string \<Rightarrow> Level option" where
  "ParseLevel lvl =
     (let l = ToLower lvl in
      if l = ''panic'' then Some PanicLevel
      else if l = ''fatal'' then Some FatalLevel
      else if l = ''error'' then Some ErrorLevel
      else if l = ''warn'' \<or> l = ''warning'' then Some WarnLevel
      else if l = ''info'' then Some InfoLevel
      else if l = ''debug'' then Some DebugLevel
      else if l = ''trace'' then Some TraceLevel
      else None)"

text \<open>
  The calls of viper the commands make. \<open>viper.Get\<close> returns \<open>nil\<close> for a key without
  a value; \<open>viper.Set\<close> replaces the value of a key or adds the key;
  \<open>viper.WriteConfig\<close> encodes all settings and rewrites the file viper was loaded
  from. The encoder depends on the type of that file and is a parameter here. A write
  that fails after the file was opened has truncated it and leaves a prefix of the new
  encoding in it.
\<close>

definition viper_AllKeys :: "state \<Rightarrow> string list" where
  "viper_AllKeys s = map fst (store s)"

definition viper_Get :: "state \<Rightarrow> string \<Rightarrow> cfg_value option" where
  "viper_Get s key = map_of (store s) key"

definition viper_Set :: "string \<Rightarrow> cfg_value \<Rightarrow> state \<Rightarrow> state" where
  "viper_Set key v s = s\<lparr>store := AList.update key v (store s)\<rparr>"

fun failed_write ::
  "((string \<times> cfg_value) list \<Rightarrow> string) \<Rightarrow> write_fault \<Rightarrow> state \<Rightarrow> state" where
  "failed_write marshal (FailsBeforeOpen e) s = s"
| "failed_write marshal (FailsAfterOpen e n) s = s\<lparr>file_bytes := take n (marshal (store s))\<rparr>"

definition viper_WriteConfig ::
  "((string \<times> cfg_value) list \<Rightarrow> string) \<Rightarrow> state \<Rightarrow> string option \<times> state" where
  "viper_WriteConfig marshal s =
     (case write_err s of
        Some w \<Rightarrow> (Some (fault_cause w), failed_write marshal w s)
      | None \<Rightarrow>
          (None, s\<lparr>file_bytes := marshal (store s),
                    trace := trace s @ [WroteConfig (marshal (store s))]\<rparr>))"

subsection \<open>config print\<close>

definition print_RunE :: "state \<Rightarrow> outcome \<times> state" where
  "print_RunE s =
     (case read_err s of
        Some e \<Rightarrow> (Failure \<lparr>Msg = ''Failed to read configuration file'', Err = e\<rparr>, s)
      | None \<Rightarrow>
          (Success,
           s\<lparr>trace := trace s @ [Printf ([CHR 0x0A] @ file_bytes s @ [CHR 0x0A])]\<rparr>))"

subsection \<open>config set\<close>

text \<open>The argument validator, lines 133 to 182. It reads the store and changes nothing.\<close>

definition invalid_arguments :: "string \<Rightarrow> EiamError" where
  "invalid_arguments cause = \<lparr>Msg = ''Invalid command arguments'', Err = cause\<rparr>"

definition set_Args :: "string list \<Rightarrow> state \<Rightarrow> EiamError option" where
  "set_Args args s =
     (if length args \<noteq> 2 then
        Some (invalid_arguments ''requires both a config key and a new value'')
      else if \<not> Contains (viper_AllKeys s) (args ! 0) then
        Some (invalid_arguments (''invalid config key '' @ args ! 0))
      else if args ! 0 = ''logging.level'' then
        (if \<not> Contains LoggingLevels (args ! 1) then
           Some (invalid_arguments
             ''logging level must be one of [trace debug info warn error fatal panic]'')
         else None)
      else if args ! 0 = ''logging.format'' then
        (if \<not> Contains LoggingFormats (args ! 1) then
           Some (invalid_arguments ''logging format must be one of [text json debug]'')
         else None)
      else if Contains BoolConfigFields (args ! 0) then
        (case ParseBool (args ! 1) of
           None \<Rightarrow>
             Some (invalid_arguments
               (''the '' @ args ! 0 @ '' value must be either true or false''))
         | Some b \<Rightarrow> None)
      else None)"

text \<open>
  Lines 190 to 195: the value stored. A failed \<open>strconv.ParseBool\<close> leaves
  \<open>newValue\<close> at the zero value \<open>false\<close>.
\<close>

definition new_value :: "string \<Rightarrow> string \<Rightarrow> cfg_value" where
  "new_value key val =
     (if Contains BoolConfigFields key then
        VBool (case ParseBool val of Some b \<Rightarrow> b | None \<Rightarrow> False)
      else VString val)"

text \<open>
  Lines 197 to 218: the switch that updates the logger. The error of the first case
  carries the message of logrus.
\<close>

definition update_logger :: "string \<Rightarrow> string \<Rightarrow> state \<Rightarrow> EiamError option \<times> state" where
  "update_logger key val s =
     (if key = ''logging.level'' then
        (case ParseLevel val of
           None \<Rightarrow>
             (Some (invalid_arguments
                (''not a valid logrus Level: '' @ [CHR 0x22] @ val @ [CHR 0x22])), s)
         | Some level \<Rightarrow> (None, s\<lparr>logger_level := level\<rparr>))
      else if key = ''logging.format'' then
        (if val = ''debug'' then (None, s\<lparr>logger_formatter := RuntimeFormatter\<rparr>)
         else if val = ''json'' then (None, s\<lparr>logger_formatter := JSONFormatter\<rparr>)
         else (None, s\<lparr>logger_formatter := TextFormatter\<rparr>))
      else (None, s))"

text \<open>
  The body of the command, lines 183 to 228. It indexes \<open>args[0]\<close> and \<open>args[1]\<close>
  without a check of its own, so fewer than two arguments are a runtime panic.
\<close>

fun set_RunE ::
  "((string \<times> cfg_value) list \<Rightarrow> string) \<Rightarrow> string list \<Rightarrow> state \<Rightarrow> outcome \<times> state" where
  "set_RunE marshal (key # val # rest) s =
     (let oldVal = viper_Get s key in
      if oldVal = Some (VString val) then
        (Success, s\<lparr>trace := trace s @ [LoggerWarn ''New value is the same as the current one'']\<rparr>)
      else
        (case update_logger key val (viper_Set key (new_value key val) s) of
           (Some e, s1) \<Rightarrow> (Failure e, s1)
         | (None, s1) \<Rightarrow>
             (case viper_WriteConfig marshal s1 of
                (Some e, s2) \<Rightarrow>
                  (Failure \<lparr>Msg = ''Failed to write updated configuration'', Err = e\<rparr>, s2)
              | (None, s2) \<Rightarrow>
                  (Success,
                   s2\<lparr>trace := trace s2 @
                        [LoggerInfof ''Updated %s from %v to %s''
                           [ArgString key, ArgValue oldVal, ArgString val]]\<rparr>))))"
| "set_RunE marshal args s = (IndexOutOfRange, s)"

text \<open>
  cobra runs the validator first and the body only when the validator returned
  \<open>nil\<close>.
\<close>

definition cmd_set ::
  "((string \<times> cfg_value) list \<Rightarrow> string) \<Rightarrow> string list \<Rightarrow> state \<Rightarrow> outcome \<times> state" where
  "cmd_set marshal args s =
     (case set_Args args s of
        Some e \<Rightarrow> (Failure e, s)
      | None \<Rightarrow> set_RunE marshal args s)"

subsection \<open>The error taxonomy\<close>

text \<open>
  Modelled from the spec: the three kinds of failure of its section 7. The code has the
  single type \<open>EiamError\<close>; the kinds are told apart by the message.
\<close>

datatype fault = InvalidArguments | IOError | PersistenceError

definition fault_of :: "EiamError \<Rightarrow> fault option" where
  "fault_of e =
     (if Msg e = ''Invalid command arguments'' then Some InvalidArguments
      else if Msg e = ''Failed to read configuration file'' then Some IOError
      else if Msg e = ''Failed to write updated configuration'' then Some PersistenceError
      else None)"

fun fails_with :: "outcome \<Rightarrow> fault \<Rightarrow> bool" where
  "fails_with (Failure e) f = (fault_of e = Some f)"
| "fails_with r f = False"

text \<open>
  The state in which the body of \<open>set\<close> writes the file: the new value is stored
  and the logger is updated.
\<close>

definition applied :: "string \<Rightarrow> string \<Rightarrow> state \<Rightarrow> state" where
  "applied key val s = snd (update_logger key val (viper_Set key (new_value key val) s))"

subsection \<open>Printing values, and sample states\<close>

text \<open>
  The string form of a stored value, as the verb \<open>%v\<close> of Go's fmt prints it.
\<close>

fun decimal :: "nat \<Rightarrow> string" where
  "decimal n =
     (if n < 10 then [char_of (48 + n)] else decimal (n div 10) @ [char_of (48 + n mod 10)])"

fun string_form :: "cfg_value \<Rightarrow> string" where
  "string_form (VString str) = str"
| "string_form (VBool b) = (if b then ''true'' else ''false'')"
| "string_form (VInt i) = (if i < 0 then ''-'' @ decimal (nat (- i)) else decimal (nat i))"

text \<open>
  The value given is the string form of the value stored: setting a key to what it
  holds. The comparison of the body, line 186, sees this only when the stored value is
  itself a string.
\<close>

definition same_as_stored :: "state \<Rightarrow> string \<Rightarrow> string \<Rightarrow> bool" where
  "same_as_stored s key val =
     (case viper_Get s key of None \<Rightarrow> False | Some v \<Rightarrow> string_form v = val)"

text \<open>
  An encoder to run the commands with: one line for each key. The states below hold the
  twelve keys the program registers; they serve as concrete inputs.
\<close>

definition sample_marshal :: "(string \<times> cfg_value) list \<Rightarrow> string" where
  "sample_marshal st = concat (map (\<lambda>(k, v). k @ '': '' @ string_form v @ [CHR 0x0A]) st)"

definition sample_store :: "(string \<times> cfg_value) list" where
  "sample_store =
     [(''authproxy.certfile'', VString ''/etc/eiam/server.pem''),
      (''authproxy.keyfile'', VString ''/etc/eiam/server.key''),
      (''authproxy.logdir'', VString ''/var/log/eiam''),
      (''authproxy.proxyaddress'', VString ''127.0.0.1''),
      (''authproxy.proxyport'', VString ''8084''),
      (''authproxy.verbose'', VBool False),
      (''binarypaths.gcloud'', VString ''/usr/bin/gcloud''),
      (''binarypaths.kubectl'', VString ''/usr/bin/kubectl''),
      (''logging.format'', VString ''text''),
      (''logging.level'', VString ''info''),
      (''logging.disableleveltruncation'', VBool True),
      (''logging.padleveltext'', VBool True)]"

definition sample_state :: state where
  "sample_state =
     \<lparr>store = sample_store, file_bytes = sample_marshal sample_store,
      read_err = None, write_err = None,
      logger_level = InfoLevel, logger_formatter = TextFormatter, trace = []\<rparr>"

definition read_only_state :: state where
  "read_only_state = sample_state\<lparr>write_err := Some (FailsBeforeOpen ''permission denied'')\<rparr>"

definition disk_full_state :: state where
  "disk_full_state =
     sample_state\<lparr>write_err := Some (FailsAfterOpen ''no space left on device'' 0)\<rparr>"

definition unreadable_state :: state where
  "unreadable_state = sample_state\<lparr>read_err := Some ''no such file or directory''\<rparr>"

definition stale_logger_state :: state where
  "stale_logger_state =
     sample_state\<lparr>logger_level := ErrorLevel, logger_formatter := JSONFormatter\<rparr>"

section \<open>Properties\<close>

subsection \<open>Auxiliary facts\<close>

lemma Contains_set [simp]: "Contains xs x = (x \<in> set xs)"
  by (simp add: Contains_def)

lemma set_LoggingLevels:
  "set LoggingLevels = {''trace'', ''debug'', ''info'', ''warn'', ''error'', ''fatal'', ''panic''}"
  by (simp add: LoggingLevels_def)

lemma set_LoggingFormats: "set LoggingFormats = {''text'', ''json'', ''debug''}"
  by (simp add: LoggingFormats_def)

lemma set_BoolConfigFields:
  "set BoolConfigFields =
     {''authproxy.verbose'', ''logging.disableleveltruncation'', ''logging.padleveltext''}"
  by (simp add: BoolConfigFields_def)

lemma ParseBool_literals:
  "ParseBool ''true'' = Some True" "ParseBool ''false'' = Some False"
  "ParseBool ''notabool'' = None"
  by (simp_all add: ParseBool_def)

lemma ParseLevel_LoggingLevels: "val \<in> set LoggingLevels \<Longrightarrow> ParseLevel val \<noteq> None"
  by (auto simp: LoggingLevels_def ParseLevel_def ToLower_def ToLower_char_def)

lemma ParseLevel_names:
  "ParseLevel ''trace'' = Some TraceLevel" "ParseLevel ''debug'' = Some DebugLevel"
  "ParseLevel ''info'' = Some InfoLevel" "ParseLevel ''warn'' = Some WarnLevel"
  "ParseLevel ''error'' = Some ErrorLevel" "ParseLevel ''fatal'' = Some FatalLevel"
  "ParseLevel ''panic'' = Some PanicLevel"
  by (simp_all add: ParseLevel_def ToLower_def ToLower_char_def)

lemma set_Args_fault: "set_Args args s = Some e \<Longrightarrow> fault_of e = Some InvalidArguments"
  by (auto simp: set_Args_def invalid_arguments_def fault_of_def
      split: if_splits option.splits)

lemma set_Args_None_iff:
  "set_Args args s = None \<longleftrightarrow>
     (\<exists>key val. args = [key, val] \<and> key \<in> set (viper_AllKeys s) \<and>
        (key = ''logging.level'' \<longrightarrow> val \<in> set LoggingLevels) \<and>
        (key = ''logging.format'' \<longrightarrow> val \<in> set LoggingFormats) \<and>
        (key \<in> set BoolConfigFields \<longrightarrow> ParseBool val \<noteq> None))"
proof (cases args)
  case Nil
  then show ?thesis by (simp add: set_Args_def)
next
  case (Cons key r)
  note args = this
  show ?thesis
  proof (cases r)
    case Nil
    with args show ?thesis by (simp add: set_Args_def)
  next
    case (Cons val r')
    note r = this
    show ?thesis
    proof (cases r')
      case Nil
      with args r show ?thesis
        by (auto simp: set_Args_def BoolConfigFields_def split: option.splits)
    next
      case (Cons a l)
      with args r show ?thesis by (simp add: set_Args_def)
    qed
  qed
qed

lemma set_Args_two:
  "set_Args [key, val] s \<noteq> None \<longleftrightarrow>
     key \<notin> set (viper_AllKeys s) \<or>
     (key = ''logging.level'' \<and> val \<notin> set LoggingLevels) \<or>
     (key = ''logging.format'' \<and> val \<notin> set LoggingFormats) \<or>
     (key \<in> set BoolConfigFields \<and> ParseBool val = None)"
  unfolding set_Args_None_iff by simp

lemma set_Args_not_two:
  "(\<nexists>key val. args = [key, val]) \<Longrightarrow> set_Args args s \<noteq> None"
  unfolding set_Args_None_iff by simp

lemma viper_Get_Set: "viper_Get (viper_Set key v s) key = Some v"
  by (simp add: viper_Get_def viper_Set_def update_conv')

lemma update_logger_frame:
  "store (snd (update_logger key val s)) = store s"
  "file_bytes (snd (update_logger key val s)) = file_bytes s"
  "write_err (snd (update_logger key val s)) = write_err s"
  "trace (snd (update_logger key val s)) = trace s"
  by (simp_all add: update_logger_def split: option.splits)

lemma update_logger_validated:
  assumes "key = ''logging.level'' \<longrightarrow> val \<in> set LoggingLevels"
  shows "fst (update_logger key val s) = None"
  using assms ParseLevel_LoggingLevels [of val]
  by (auto simp: update_logger_def split: option.splits)

lemma applied_frame:
  "viper_Get (applied key val s) key = Some (new_value key val)"
  "file_bytes (applied key val s) = file_bytes s"
  "write_err (applied key val s) = write_err s"
  "trace (applied key val s) = trace s"
  by (simp_all add: applied_def update_logger_frame viper_Get_def)
    (simp_all add: viper_Set_def update_conv')

lemma applied_level:
  "ParseLevel val = Some l \<Longrightarrow> logger_level (applied ''logging.level'' val s) = l"
  by (simp add: applied_def update_logger_def)

lemma applied_formatter:
  "logger_formatter (applied ''logging.format'' val s) =
     (if val = ''debug'' then RuntimeFormatter
      else if val = ''json'' then JSONFormatter else TextFormatter)"
  by (simp add: applied_def update_logger_def)

lemma new_value_bool:
  "key \<in> set BoolConfigFields \<Longrightarrow> ParseBool val = Some b \<Longrightarrow> new_value key val = VBool b"
  by (simp add: new_value_def)

lemma new_value_string:
  "key \<notin> set BoolConfigFields \<Longrightarrow> new_value key val = VString val"
  by (simp add: new_value_def)

text \<open>
  What \<open>set\<close> does once the validator has accepted its arguments: the short-circuit
  when the stored value is the very string given, else the update, followed by the
  write of the file, which fails or goes through.
\<close>

lemma cmd_set_validated:
  assumes "set_Args [key, val] s = None"
  shows "cmd_set marshal [key, val] s =
     (if viper_Get s key = Some (VString val) then
        (Success,
         s\<lparr>trace := trace s @ [LoggerWarn ''New value is the same as the current one'']\<rparr>)
      else
        (case write_err s of
           Some w \<Rightarrow>
             (Failure \<lparr>Msg = ''Failed to write updated configuration'', Err = fault_cause w\<rparr>,
              failed_write marshal w (applied key val s))
         | None \<Rightarrow>
             (Success,
              (applied key val s)
                \<lparr>file_bytes := marshal (store (applied key val s)),
                 trace := trace s @
                   [WroteConfig (marshal (store (applied key val s))),
                    LoggerInfof ''Updated %s from %v to %s''
                      [ArgString key, ArgValue (viper_Get s key), ArgString val]]\<rparr>)))"
proof -
  from assms have lvl: "key = ''logging.level'' \<longrightarrow> val \<in> set LoggingLevels"
    by (simp add: set_Args_None_iff)
  obtain s1 where upd:
    "update_logger key val (viper_Set key (new_value key val) s) = (None, s1)"
    using update_logger_validated [OF lvl, of "viper_Set key (new_value key val) s"]
    by (cases "update_logger key val (viper_Set key (new_value key val) s)") simp
  then have s1: "s1 = applied key val s"
    by (simp add: applied_def)
  have w: "write_err s1 = write_err s" and t: "trace s1 = trace s"
    by (simp_all add: s1 applied_frame)
  show ?thesis
    using assms upd w t
    by (simp add: cmd_set_def viper_WriteConfig_def s1 [symmetric] split: option.splits)
qed

lemma cmd_set_invalid_iff:
  "fails_with (fst (cmd_set marshal args s)) InvalidArguments \<longleftrightarrow> set_Args args s \<noteq> None"
proof (cases "set_Args args s")
  case (Some e)
  then show ?thesis by (simp add: cmd_set_def set_Args_fault)
next
  case None
  then obtain key val where args: "args = [key, val]"
    by (auto simp: set_Args_None_iff)
  from None show ?thesis
    unfolding args
    by (simp add: cmd_set_validated fault_of_def split: option.splits)
qed

lemma cmd_set_Success_iff:
  "fst (cmd_set marshal [key, val] s) = Success \<longleftrightarrow>
     set_Args [key, val] s = None \<and>
     (viper_Get s key = Some (VString val) \<or> write_err s = None)"
proof (cases "set_Args [key, val] s")
  case (Some e)
  then show ?thesis by (simp add: cmd_set_def)
next
  case None
  then show ?thesis by (simp add: cmd_set_validated split: option.splits)
qed

lemma failed_write_frame:
  "store (failed_write marshal w s) = store s"
  "logger_level (failed_write marshal w s) = logger_level s"
  "logger_formatter (failed_write marshal w s) = logger_formatter s"
  "trace (failed_write marshal w s) = trace s"
  by (cases w; simp)+

lemma cmd_set_applied:
  assumes "set_Args [key, val] s = None" and "viper_Get s key \<noteq> Some (VString val)"
  shows "store (snd (cmd_set marshal [key, val] s)) = store (applied key val s)"
    and "logger_level (snd (cmd_set marshal [key, val] s)) = logger_level (applied key val s)"
    and "logger_formatter (snd (cmd_set marshal [key, val] s)) =
           logger_formatter (applied key val s)"
  using assms by (simp_all add: cmd_set_validated failed_write_frame split: option.splits)

lemma same_as_stored_string:
  "viper_Get s key = Some (VString val) \<Longrightarrow> same_as_stored s key val"
  by (simp add: same_as_stored_def)

lemma cmd_set_stored:
  assumes "set_Args [key, val] s = None" and "viper_Get s key \<noteq> Some (VString val)"
  shows "viper_Get (snd (cmd_set marshal [key, val] s)) key = Some (new_value key val)"
proof -
  have "viper_Get (snd (cmd_set marshal [key, val] s)) key = viper_Get (applied key val s) key"
    using cmd_set_applied(1) [OF assms] by (simp add: viper_Get_def)
  then show ?thesis by (simp add: applied_frame)
qed

text \<open>Facts about the sample states.\<close>

lemmas sample_defs =
  sample_state_def read_only_state_def disk_full_state_def unreadable_state_def
  stale_logger_state_def
  sample_store_def viper_AllKeys_def viper_Get_def

lemmas run_defs =
  cmd_set_def set_Args_def invalid_arguments_def fault_of_def
  LoggingLevels_def LoggingFormats_def BoolConfigFields_def ParseBool_def

lemma sample_keys:
  "''authproxy.verbose'' \<in> set (viper_AllKeys sample_state)"
  "''authproxy.logdir'' \<in> set (viper_AllKeys sample_state)"
  "''logging.level'' \<in> set (viper_AllKeys sample_state)"
  "''logging.format'' \<in> set (viper_AllKeys sample_state)"
  by (simp_all add: sample_defs)

lemma sample_values:
  "viper_Get sample_state ''authproxy.verbose'' = Some (VBool False)"
  "viper_Get sample_state ''authproxy.logdir'' = Some (VString ''/var/log/eiam'')"
  "viper_Get sample_state ''logging.level'' = Some (VString ''info'')"
  "viper_Get sample_state ''logging.format'' = Some (VString ''text'')"
  by (simp_all add: sample_defs)

lemma read_only_frame:
  "viper_AllKeys read_only_state = viper_AllKeys sample_state"
  "viper_Get read_only_state = viper_Get sample_state"
  "write_err read_only_state = Some (FailsBeforeOpen ''permission denied'')"
  "set_Args args read_only_state = set_Args args sample_state"
  by (simp_all add: read_only_state_def viper_AllKeys_def viper_Get_def set_Args_def fun_eq_iff)



lemma sample_differs:
  "\<not> same_as_stored sample_state ''authproxy.verbose'' ''true''"
  "\<not> same_as_stored sample_state ''authproxy.logdir'' ''/tmp/logs''"
  by (simp_all add: same_as_stored_def sample_values)

lemma sample_valid:
  "set_Args [''authproxy.verbose'', ''true''] sample_state = None"
  "set_Args [''authproxy.verbose'', ''false''] sample_state = None"
  "set_Args [''logging.level'', ''debug''] sample_state = None"
  "set_Args [''logging.level'', ''info''] sample_state = None"
  "set_Args [''logging.level'', ''warn''] sample_state = None"
  "set_Args [''logging.format'', ''json''] sample_state = None"
  by (simp_all add: set_Args_None_iff sample_keys set_LoggingLevels set_LoggingFormats
      set_BoolConfigFields ParseBool_literals) blast+

lemma sample_applied:
  "store (applied ''authproxy.verbose'' ''false'' sample_state) = sample_store"
  by (simp add: applied_def update_logger_def viper_Set_def new_value_def
      set_BoolConfigFields ParseBool_literals sample_state_def sample_store_def)

text \<open>
  Without the validator in front, the body stores a value before it finds that the value
  is no level: validation is what keeps this branch from running.
\<close>

lemma set_RunE_unvalidated:
  "fails_with (fst (set_RunE sample_marshal [''logging.level'', ''loud''] sample_state))
     InvalidArguments \<and>
   viper_Get (snd (set_RunE sample_marshal [''logging.level'', ''loud''] sample_state))
     ''logging.level'' = Some (VString ''loud'')"
proof -
  have "ParseLevel ''loud'' = None"
    by (simp add: ParseLevel_def ToLower_def ToLower_char_def)
  then show ?thesis
    by (simp add: sample_values update_logger_def invalid_arguments_def fault_of_def
        viper_Get_Set new_value_def set_BoolConfigFields)
qed

subsection \<open>Validation of \<open>set\<close>\<close>

text \<open>
  Claim C1. An invocation of \<open>set\<close> fails with InvalidArguments exactly when it does not
  have two arguments, or the key is not among \<open>viper.AllKeys()\<close>, or the key is
  \<open>logging.level\<close> and the value is none of the seven level names, or the key is
  \<open>logging.format\<close> and the value is none of \<open>text\<close>, \<open>json\<close>, \<open>debug\<close>, or the key is
  one of the three boolean keys and \<open>strconv.ParseBool\<close> rejects the value. A registered
  key \<open>k\<close> outside these five accepts every value \<open>v\<close>.
\<close>

theorem set_invalid_arguments_iff:
  "(fails_with (fst (cmd_set marshal args s)) InvalidArguments \<longleftrightarrow>
     (case args of
        [key, val] \<Rightarrow>
          key \<notin> set (viper_AllKeys s) \<or>
          (key = ''logging.level'' \<and>
             val \<notin> {''trace'', ''debug'', ''info'', ''warn'', ''error'', ''fatal'', ''panic''}) \<or>
          (key = ''logging.format'' \<and> val \<notin> {''text'', ''json'', ''debug''}) \<or>
          (key \<in> {''authproxy.verbose'', ''logging.disableleveltruncation'',
                    ''logging.padleveltext''} \<and> ParseBool val = None)
      | _ \<Rightarrow> True)) \<and>
   (k \<in> set (viper_AllKeys s) \<and>
    k \<notin> {''logging.level'', ''logging.format'', ''authproxy.verbose'',
           ''logging.disableleveltruncation'', ''logging.padleveltext''} \<longrightarrow>
      \<not> fails_with (fst (cmd_set marshal [k, v] s)) InvalidArguments)"
proof (rule conjI)
  show "fails_with (fst (cmd_set marshal args s)) InvalidArguments \<longleftrightarrow>
     (case args of
        [key, val] \<Rightarrow>
          key \<notin> set (viper_AllKeys s) \<or>
          (key = ''logging.level'' \<and>
             val \<notin> {''trace'', ''debug'', ''info'', ''warn'', ''error'', ''fatal'', ''panic''}) \<or>
          (key = ''logging.format'' \<and> val \<notin> {''text'', ''json'', ''debug''}) \<or>
          (key \<in> {''authproxy.verbose'', ''logging.disableleveltruncation'',
                    ''logging.padleveltext''} \<and> ParseBool val = None)
      | _ \<Rightarrow> True)"
  proof (cases "\<exists>key val. args = [key, val]")
    case True
    then obtain key val where args: "args = [key, val]" by blast
    show ?thesis
      unfolding args cmd_set_invalid_iff set_Args_two
        set_LoggingLevels set_LoggingFormats set_BoolConfigFields
      by (simp only: list.case)
  next
    case False
    then have "set_Args args s \<noteq> None" by (rule set_Args_not_two)
    moreover from False have "(case args of
        [key, val] \<Rightarrow>
          key \<notin> set (viper_AllKeys s) \<or>
          (key = ''logging.level'' \<and>
             val \<notin> {''trace'', ''debug'', ''info'', ''warn'', ''error'', ''fatal'', ''panic''}) \<or>
          (key = ''logging.format'' \<and> val \<notin> {''text'', ''json'', ''debug''}) \<or>
          (key \<in> {''authproxy.verbose'', ''logging.disableleveltruncation'',
                    ''logging.padleveltext''} \<and> ParseBool val = None)
      | _ \<Rightarrow> True)"
      by (simp split: list.splits)
    ultimately show ?thesis
      unfolding cmd_set_invalid_iff by simp
  qed
next
  show "k \<in> set (viper_AllKeys s) \<and>
    k \<notin> {''logging.level'', ''logging.format'', ''authproxy.verbose'',
           ''logging.disableleveltruncation'', ''logging.padleveltext''} \<longrightarrow>
      \<not> fails_with (fst (cmd_set marshal [k, v] s)) InvalidArguments"
    unfolding cmd_set_invalid_iff set_Args_two set_BoolConfigFields by simp
qed

theorem set_invalid_arguments_iff_witness:
  "fails_with (fst (cmd_set sample_marshal [''logging.level'', ''loud''] sample_state))
     InvalidArguments \<and>
   \<not> fails_with (fst (cmd_set sample_marshal [''authproxy.logdir'', ''/tmp/logs''] sample_state))
     InvalidArguments"
proof -
  have k: "''authproxy.logdir'' \<in> set (viper_AllKeys sample_state)"
    by (simp add: sample_defs)
  show ?thesis
    using k set_invalid_arguments_iff
      [of sample_marshal "[''logging.level'', ''loud'']" sample_state "''authproxy.logdir''"
        "''/tmp/logs''"]
    by simp
qed

text \<open>
  Claim C2. When \<open>set\<close> fails with InvalidArguments, nothing has been changed: the state
  after the invocation, that is the store, the backing file, the level and formatter of
  the logger and the trace of events, is the state before it. The one place of the body
  that returns this kind of error after \<open>viper.Set\<close>, the failure of
  \<open>logrus.ParseLevel\<close>, is never reached once the validator has accepted the arguments.
\<close>

theorem set_invalid_no_mutation:
  "fails_with (fst (cmd_set marshal args s)) InvalidArguments \<Longrightarrow>
     snd (cmd_set marshal args s) = s"
  unfolding cmd_set_invalid_iff by (auto simp: cmd_set_def)

theorem set_invalid_no_mutation_witness:
  "fails_with (fst (cmd_set sample_marshal [''authproxy.verbose'', ''notabool''] sample_state))
     InvalidArguments \<and>
   snd (cmd_set sample_marshal [''authproxy.verbose'', ''notabool''] sample_state) = sample_state"
proof -
  have h: "fails_with
      (fst (cmd_set sample_marshal [''authproxy.verbose'', ''notabool''] sample_state))
      InvalidArguments"
    by (simp add: run_defs sample_defs)
  from h set_invalid_no_mutation [OF h] show ?thesis by simp
qed

subsection \<open>Setting a value that is already there\<close>

text \<open>
  Claim C3. The claim asks that \<open>set\<close> with the string form of the stored value writes
  nothing, warns and succeeds, for boolean keys too. The body compares the stored
  \<open>interface{}\<close> with the argument string before it coerces the argument, so a stored
  boolean never equals it. In the sample state \<open>authproxy.verbose\<close> holds the boolean
  \<open>false\<close>, whose string form is \<open>false\<close>; \<open>set authproxy.verbose false\<close> succeeds,
  and what it does is one write of the file and the line
  \<open>Updated authproxy.verbose from false to false\<close>, with no warning.
\<close>

theorem set_same_bool_rewrites_file:
  "viper_Get sample_state ''authproxy.verbose'' = Some (VBool False) \<and>
   string_form (VBool False) = ''false'' \<and>
   fst (cmd_set sample_marshal [''authproxy.verbose'', ''false''] sample_state) = Success \<and>
   trace (snd (cmd_set sample_marshal [''authproxy.verbose'', ''false''] sample_state)) =
     [WroteConfig (sample_marshal sample_store),
      LoggerInfof ''Updated %s from %v to %s''
        [ArgString ''authproxy.verbose'', ArgValue (Some (VBool False)), ArgString ''false'']]"
proof -
  have "trace sample_state = []" "write_err sample_state = None"
    by (simp_all add: sample_state_def)
  then show ?thesis
    by (simp add: cmd_set_validated sample_valid sample_values sample_applied)
qed

text \<open>
  Claim C10. When \<open>set\<close> of \<open>logging.level\<close> or \<open>logging.format\<close> takes the
  short-circuit, because the stored value is the string given, it warns, succeeds and
  leaves the level and the formatter of the logger as they were, whatever they were: the
  logger is not brought in line with the store.
\<close>

theorem noop_leaves_logger:
  assumes "key = ''logging.level'' \<or> key = ''logging.format''"
    and "set_Args [key, v] s = None"
    and "viper_Get s key = Some (VString v)"
  shows "cmd_set marshal [key, v] s =
           (Success,
            s\<lparr>trace := trace s @ [LoggerWarn ''New value is the same as the current one'']\<rparr>) \<and>
         logger_level (snd (cmd_set marshal [key, v] s)) = logger_level s \<and>
         logger_formatter (snd (cmd_set marshal [key, v] s)) = logger_formatter s"
  using assms(2,3) by (simp add: cmd_set_validated)

text \<open>
  In the state of the witness the store holds the level \<open>info\<close> while the logger is at
  \<open>ErrorLevel\<close>, and stays there.
\<close>

theorem noop_leaves_logger_witness:
  "set_Args [''logging.level'', ''info''] stale_logger_state = None \<and>
   viper_Get stale_logger_state ''logging.level'' = Some (VString ''info'') \<and>
   fst (cmd_set sample_marshal [''logging.level'', ''info''] stale_logger_state) = Success \<and>
   logger_level (snd (cmd_set sample_marshal [''logging.level'', ''info''] stale_logger_state)) =
     ErrorLevel \<and>
   ParseLevel ''info'' = Some InfoLevel"
proof -
  have a: "set_Args [''logging.level'', ''info''] stale_logger_state = None"
    using sample_valid(4) by (simp add: set_Args_def stale_logger_state_def viper_AllKeys_def)
  have b: "viper_Get stale_logger_state ''logging.level'' = Some (VString ''info'')"
    using sample_values(3) by (simp add: viper_Get_def stale_logger_state_def)
  have l: "logger_level stale_logger_state = ErrorLevel"
    by (simp add: stale_logger_state_def)
  from noop_leaves_logger [OF _ a b, of sample_marshal] a b l ParseLevel_names(3)
  show ?thesis by simp
qed

subsection \<open>Typed keys\<close>

text \<open>
  Claim C4, amended. For a registered key that is one of the three boolean keys, \<open>set\<close>
  passes validation exactly when \<open>strconv.ParseBool\<close> accepts the value. When the
  stored value is the very string given, \<open>set\<close> succeeds exactly when the value is
  accepted. When the value given is not the string form of the stored value, \<open>set\<close>
  succeeds exactly when the value is accepted and the write of the file goes through,
  and whenever the value is accepted, which covers every successful such set, the store
  then holds the coerced boolean \<open>b\<close>. For a registered key that is not a boolean key,
  a set that passes validation with a value that is not the string form of the stored
  value stores the string itself. Nothing is said of a stored value that is not a string
  and has the given value as its string form.
\<close>

theorem set_bool_key:
  assumes "key \<in> set (viper_AllKeys s)"
  shows
    "(key \<in> {''authproxy.verbose'', ''logging.disableleveltruncation'',
              ''logging.padleveltext''} \<longrightarrow>
        (\<not> fails_with (fst (cmd_set marshal [key, val] s)) InvalidArguments \<longleftrightarrow>
           ParseBool val \<noteq> None) \<and>
        (viper_Get s key = Some (VString val) \<longrightarrow>
           (fst (cmd_set marshal [key, val] s) = Success \<longleftrightarrow> ParseBool val \<noteq> None)) \<and>
        (\<not> same_as_stored s key val \<longrightarrow>
           (fst (cmd_set marshal [key, val] s) = Success \<longleftrightarrow>
              ParseBool val \<noteq> None \<and> write_err s = None)) \<and>
        (ParseBool val = Some b \<and> \<not> same_as_stored s key val \<longrightarrow>
           viper_Get (snd (cmd_set marshal [key, val] s)) key = Some (VBool b))) \<and>
     (key \<notin> {''authproxy.verbose'', ''logging.disableleveltruncation'',
              ''logging.padleveltext''} \<longrightarrow>
        (\<not> fails_with (fst (cmd_set marshal [key, val] s)) InvalidArguments \<and>
         \<not> same_as_stored s key val \<longrightarrow>
           viper_Get (snd (cmd_set marshal [key, val] s)) key = Some (VString val)))"
proof (cases "key \<in> set BoolConfigFields")
  case True
  then have "key = ''authproxy.verbose'' \<or> key = ''logging.disableleveltruncation'' \<or>
      key = ''logging.padleveltext''"
    by (simp add: set_BoolConfigFields)
  then have nl: "key \<noteq> ''logging.level'' \<and> key \<noteq> ''logging.format''"
    by (elim disjE) simp_all
  from True assms nl have valid: "set_Args [key, val] s = None \<longleftrightarrow> ParseBool val \<noteq> None"
    by (simp add: set_Args_None_iff)
  have differs: "viper_Get s key \<noteq> Some (VString val)" if "\<not> same_as_stored s key val"
    using that same_as_stored_string [of s key val] by blast
  have noop: "fst (cmd_set marshal [key, val] s) = Success \<longleftrightarrow> ParseBool val \<noteq> None"
    if "viper_Get s key = Some (VString val)"
    unfolding cmd_set_Success_iff using that valid by simp
  have written: "fst (cmd_set marshal [key, val] s) = Success \<longleftrightarrow>
      ParseBool val \<noteq> None \<and> write_err s = None"
    if "\<not> same_as_stored s key val"
    unfolding cmd_set_Success_iff using differs [OF that] valid by simp
  have stored: "viper_Get (snd (cmd_set marshal [key, val] s)) key = Some (VBool b)"
    if p: "ParseBool val = Some b" and d: "\<not> same_as_stored s key val"
  proof -
    from p valid have "set_Args [key, val] s = None" by simp
    from cmd_set_stored [OF this differs [OF d]] new_value_bool [OF True p]
    show ?thesis by simp
  qed
  have inv: "\<not> fails_with (fst (cmd_set marshal [key, val] s)) InvalidArguments \<longleftrightarrow>
      ParseBool val \<noteq> None"
    unfolding cmd_set_invalid_iff using valid by simp
  from True inv noop written stored show ?thesis
    unfolding set_BoolConfigFields [symmetric] by blast
next
  case False
  have "viper_Get (snd (cmd_set marshal [key, val] s)) key = Some (VString val)"
    if v: "\<not> fails_with (fst (cmd_set marshal [key, val] s)) InvalidArguments"
      and d: "\<not> same_as_stored s key val"
  proof -
    from v have a: "set_Args [key, val] s = None"
      unfolding cmd_set_invalid_iff by simp
    from d have "viper_Get s key \<noteq> Some (VString val)"
      using same_as_stored_string [of s key val] by blast
    from cmd_set_stored [OF a this] new_value_string [OF False] show ?thesis by simp
  qed
  with False show ?thesis
    unfolding set_BoolConfigFields [symmetric] by blast
qed

text \<open>
  The claim as stated, success exactly when the value parses, fails where the file
  cannot be written: the key holds \<open>false\<close>, the value \<open>true\<close> parses and is another
  value, and \<open>set\<close> returns the error of the write.
\<close>

theorem set_bool_key_counterexample:
  "''authproxy.verbose'' \<in> set (viper_AllKeys read_only_state) \<and>
   ParseBool ''true'' = Some True \<and>
   fails_with (fst (cmd_set sample_marshal [''authproxy.verbose'', ''true''] read_only_state))
     PersistenceError \<and>
   \<not> (fst (cmd_set sample_marshal [''authproxy.verbose'', ''true''] read_only_state) = Success
        \<longleftrightarrow> ParseBool ''true'' \<noteq> None)"
proof -
  have "set_Args [''authproxy.verbose'', ''true''] read_only_state = None"
    by (simp add: read_only_frame sample_valid)
  then show ?thesis
    by (simp add: cmd_set_validated read_only_frame sample_keys sample_values
        ParseBool_literals fault_of_def)
qed

theorem set_bool_key_witness:
  "''authproxy.verbose'' \<in> set (viper_AllKeys sample_state) \<and>
   \<not> same_as_stored sample_state ''authproxy.verbose'' ''true'' \<and>
   fst (cmd_set sample_marshal [''authproxy.verbose'', ''true''] sample_state) = Success \<and>
   viper_Get (snd (cmd_set sample_marshal [''authproxy.verbose'', ''true''] sample_state))
     ''authproxy.verbose'' = Some (VBool True) \<and>
   \<not> same_as_stored sample_state ''authproxy.logdir'' ''/tmp/logs'' \<and>
   viper_Get (snd (cmd_set sample_marshal [''authproxy.logdir'', ''/tmp/logs''] sample_state))
     ''authproxy.logdir'' = Some (VString ''/tmp/logs'')"
proof -
  note p = ParseBool_literals(1)
  have w: "write_err sample_state = None" by (simp add: sample_state_def)
  have n: "\<not> fails_with
      (fst (cmd_set sample_marshal [''authproxy.logdir'', ''/tmp/logs''] sample_state))
      InvalidArguments"
    by (simp add: cmd_set_invalid_iff set_Args_None_iff sample_keys set_BoolConfigFields)
  from set_bool_key [OF sample_keys(1), where marshal = sample_marshal and val = "''true''"
      and b = True]
    set_bool_key [OF sample_keys(2), where marshal = sample_marshal and val = "''/tmp/logs''"]
    p w n sample_differs sample_keys(1)
  show ?thesis by simp
qed

text \<open>
  Claim C5, amended. With \<open>logging.level\<close> registered, \<open>set\<close> of it passes validation
  exactly when the value is one of the seven level names, and it succeeds exactly when
  moreover the stored value is already that string or the write of the file goes
  through. After every successful set that is not a no-op the level of the logger is the
  level \<open>logrus.ParseLevel\<close> gives for the value.
\<close>

theorem set_logging_level:
  assumes "''logging.level'' \<in> set (viper_AllKeys s)"
  shows
    "(\<not> fails_with (fst (cmd_set marshal [''logging.level'', val] s)) InvalidArguments \<longleftrightarrow>
        val \<in> {''trace'', ''debug'', ''info'', ''warn'', ''error'', ''fatal'', ''panic''}) \<and>
     (fst (cmd_set marshal [''logging.level'', val] s) = Success \<longleftrightarrow>
        val \<in> {''trace'', ''debug'', ''info'', ''warn'', ''error'', ''fatal'', ''panic''} \<and>
        (viper_Get s ''logging.level'' = Some (VString val) \<or> write_err s = None)) \<and>
     (fst (cmd_set marshal [''logging.level'', val] s) = Success \<and>
      viper_Get s ''logging.level'' \<noteq> Some (VString val) \<longrightarrow>
        ParseLevel val = Some (logger_level (snd (cmd_set marshal [''logging.level'', val] s))))"
proof -
  from assms have valid:
    "set_Args [''logging.level'', val] s = None \<longleftrightarrow> val \<in> set LoggingLevels"
    by (simp add: set_Args_None_iff set_BoolConfigFields)
  have level:
    "ParseLevel val = Some (logger_level (snd (cmd_set marshal [''logging.level'', val] s)))"
    if v: "val \<in> set LoggingLevels"
      and n: "viper_Get s ''logging.level'' \<noteq> Some (VString val)"
  proof -
    from v obtain l where l: "ParseLevel val = Some l"
      using ParseLevel_LoggingLevels [of val] by blast
    from v valid have "set_Args [''logging.level'', val] s = None" by simp
    from cmd_set_applied(2) [OF this n] applied_level [OF l] l
    show ?thesis by simp
  qed
  from valid level show ?thesis
    unfolding cmd_set_invalid_iff cmd_set_Success_iff set_LoggingLevels [symmetric]
    by simp
qed

text \<open>
  The claim as stated fails where the file cannot be written: \<open>debug\<close> is a level name
  and \<open>set\<close> returns the error of the write.
\<close>

theorem set_logging_level_counterexample:
  "''logging.level'' \<in> set (viper_AllKeys read_only_state) \<and>
   ''debug'' \<in> {''trace'', ''debug'', ''info'', ''warn'', ''error'', ''fatal'', ''panic''} \<and>
   fails_with (fst (cmd_set sample_marshal [''logging.level'', ''debug''] read_only_state))
     PersistenceError \<and>
   \<not> (fst (cmd_set sample_marshal [''logging.level'', ''debug''] read_only_state) = Success
        \<longleftrightarrow> ''debug'' \<in> {''trace'', ''debug'', ''info'', ''warn'', ''error'', ''fatal'', ''panic''})"
proof -
  have "set_Args [''logging.level'', ''debug''] read_only_state = None"
    by (simp add: read_only_frame sample_valid)
  then show ?thesis
    by (simp add: cmd_set_validated read_only_frame sample_keys sample_values fault_of_def)
qed

theorem set_logging_level_witness:
  "''logging.level'' \<in> set (viper_AllKeys sample_state) \<and>
   fst (cmd_set sample_marshal [''logging.level'', ''debug''] sample_state) = Success \<and>
   logger_level (snd (cmd_set sample_marshal [''logging.level'', ''debug''] sample_state)) =
     DebugLevel \<and>
   fails_with (fst (cmd_set sample_marshal [''logging.level'', ''loud''] sample_state))
     InvalidArguments"
proof -
  have w: "write_err sample_state = None" by (simp add: sample_state_def)
  from set_logging_level [OF sample_keys(3), where marshal = sample_marshal and val = "''debug''"]
    set_logging_level [OF sample_keys(3), where marshal = sample_marshal and val = "''loud''"]
    w sample_values(3) sample_keys(3) ParseLevel_names(2)
  show ?thesis by simp
qed

text \<open>
  Claim C6, amended. With \<open>logging.format\<close> registered, \<open>set\<close> of it passes validation
  exactly when the value is \<open>text\<close>, \<open>json\<close> or \<open>debug\<close>, and it succeeds exactly when
  moreover the stored value is already that string or the write of the file goes
  through. After every successful set that is not a no-op the formatter of the logger is
  the runtime formatter for \<open>debug\<close>, the JSON formatter for \<open>json\<close> and the text
  formatter otherwise.
\<close>

theorem set_logging_format:
  assumes "''logging.format'' \<in> set (viper_AllKeys s)"
  shows
    "(\<not> fails_with (fst (cmd_set marshal [''logging.format'', val] s)) InvalidArguments \<longleftrightarrow>
        val \<in> {''text'', ''json'', ''debug''}) \<and>
     (fst (cmd_set marshal [''logging.format'', val] s) = Success \<longleftrightarrow>
        val \<in> {''text'', ''json'', ''debug''} \<and>
        (viper_Get s ''logging.format'' = Some (VString val) \<or> write_err s = None)) \<and>
     (fst (cmd_set marshal [''logging.format'', val] s) = Success \<and>
      viper_Get s ''logging.format'' \<noteq> Some (VString val) \<longrightarrow>
        logger_formatter (snd (cmd_set marshal [''logging.format'', val] s)) =
          (if val = ''debug'' then RuntimeFormatter
           else if val = ''json'' then JSONFormatter
           else TextFormatter))"
proof -
  from assms have valid:
    "set_Args [''logging.format'', val] s = None \<longleftrightarrow> val \<in> set LoggingFormats"
    by (simp add: set_Args_None_iff set_BoolConfigFields)
  have fmt: "logger_formatter (snd (cmd_set marshal [''logging.format'', val] s)) =
          (if val = ''debug'' then RuntimeFormatter
           else if val = ''json'' then JSONFormatter
           else TextFormatter)"
    if v: "val \<in> set LoggingFormats"
      and n: "viper_Get s ''logging.format'' \<noteq> Some (VString val)"
  proof -
    from v valid have "set_Args [''logging.format'', val] s = None" by simp
    from cmd_set_applied(3) [OF this n] show ?thesis
      by (simp only: applied_formatter)
  qed
  from valid fmt show ?thesis
    unfolding cmd_set_invalid_iff cmd_set_Success_iff set_LoggingFormats [symmetric]
    by simp
qed

text \<open>
  The claim as stated fails where the file cannot be written: \<open>json\<close> is a format name
  and \<open>set\<close> returns the error of the write.
\<close>

theorem set_logging_format_counterexample:
  "''logging.format'' \<in> set (viper_AllKeys read_only_state) \<and>
   ''json'' \<in> {''text'', ''json'', ''debug''} \<and>
   fails_with (fst (cmd_set sample_marshal [''logging.format'', ''json''] read_only_state))
     PersistenceError \<and>
   \<not> (fst (cmd_set sample_marshal [''logging.format'', ''json''] read_only_state) = Success
        \<longleftrightarrow> ''json'' \<in> {''text'', ''json'', ''debug''})"
proof -
  have "set_Args [''logging.format'', ''json''] read_only_state = None"
    by (simp add: read_only_frame sample_valid)
  then show ?thesis
    by (simp add: cmd_set_validated read_only_frame sample_keys sample_values fault_of_def)
qed

theorem set_logging_format_witness:
  "''logging.format'' \<in> set (viper_AllKeys sample_state) \<and>
   fst (cmd_set sample_marshal [''logging.format'', ''json''] sample_state) = Success \<and>
   logger_formatter (snd (cmd_set sample_marshal [''logging.format'', ''json''] sample_state)) =
     JSONFormatter \<and>
   fails_with (fst (cmd_set sample_marshal [''logging.format'', ''xml''] sample_state))
     InvalidArguments"
proof -
  have w: "write_err sample_state = None" by (simp add: sample_state_def)
  from set_logging_format [OF sample_keys(4), where marshal = sample_marshal and val = "''json''"]
    set_logging_format [OF sample_keys(4), where marshal = sample_marshal and val = "''xml''"]
    w sample_values(4) sample_keys(4)
  show ?thesis by simp
qed

text \<open>
  Claim C8. Once the validator has accepted a value for \<open>logging.level\<close>, the value is one
  of the seven level names, \<open>logrus.ParseLevel\<close> returns a level for it, the switch
  sets that level in whatever state \<open>t\<close> it runs, and the body does not fail with
  InvalidArguments: the branch for a parse failure is not taken.
\<close>

theorem level_parse_failure_unreachable:
  assumes "set_Args [''logging.level'', val] s = None"
  shows "val \<in> {''trace'', ''debug'', ''info'', ''warn'', ''error'', ''fatal'', ''panic''} \<and>
         (\<exists>level. ParseLevel val = Some level \<and>
            update_logger ''logging.level'' val t = (None, t\<lparr>logger_level := level\<rparr>)) \<and>
         \<not> fails_with (fst (set_RunE marshal [''logging.level'', val] s)) InvalidArguments"
proof -
  from assms have v: "val \<in> set LoggingLevels"
    by (simp add: set_Args_None_iff)
  then obtain l where l: "ParseLevel val = Some l"
    using ParseLevel_LoggingLevels [of val] by blast
  have "update_logger ''logging.level'' val t = (None, t\<lparr>logger_level := l\<rparr>)"
    by (simp add: update_logger_def l)
  moreover have "\<not> fails_with (fst (cmd_set marshal [''logging.level'', val] s)) InvalidArguments"
    unfolding cmd_set_invalid_iff using assms by simp
  then have "\<not> fails_with (fst (set_RunE marshal [''logging.level'', val] s)) InvalidArguments"
    using assms by (simp add: cmd_set_def)
  ultimately show ?thesis
    using v l by (simp add: set_LoggingLevels)
qed

theorem level_parse_failure_unreachable_witness:
  "set_Args [''logging.level'', ''warn''] sample_state = None \<and>
   update_logger ''logging.level'' ''warn'' sample_state =
     (None, sample_state\<lparr>logger_level := WarnLevel\<rparr>) \<and>
   \<not> fails_with (fst (set_RunE sample_marshal [''logging.level'', ''warn''] sample_state))
       InvalidArguments"
  using level_parse_failure_unreachable
    [OF sample_valid(5), of sample_state sample_marshal] sample_valid(5) ParseLevel_names(4)
  by simp

subsection \<open>Failure of the write\<close>




subsection \<open>Printing the file\<close>

text \<open>
  Claim C9. If the file can be read, \<open>print\<close> succeeds, puts the bytes of the file on
  standard output as they are, between two newlines, and leaves the store, the file and
  the logger alone. If the read fails with \<open>e\<close>, \<open>print\<close> returns the error
  \<open>Failed to read configuration file\<close> with cause \<open>e\<close>, an IO error, and the state is
  unchanged.
\<close>

theorem print_emits_file:
  "(read_err s = None \<longrightarrow>
      print_RunE s =
        (Success, s\<lparr>trace := trace s @ [Printf ([CHR 0x0A] @ file_bytes s @ [CHR 0x0A])]\<rparr>) \<and>
      store (snd (print_RunE s)) = store s \<and>
      file_bytes (snd (print_RunE s)) = file_bytes s \<and>
      logger_level (snd (print_RunE s)) = logger_level s \<and>
      logger_formatter (snd (print_RunE s)) = logger_formatter s) \<and>
   (read_err s = Some e \<longrightarrow>
      print_RunE s = (Failure \<lparr>Msg = ''Failed to read configuration file'', Err = e\<rparr>, s) \<and>
      fails_with (fst (print_RunE s)) IOError)"
  by (simp add: print_RunE_def fault_of_def)

theorem print_emits_file_witness:
  "read_err sample_state = None \<and>
   fst (print_RunE sample_state) = Success \<and>
   trace (snd (print_RunE sample_state)) =
     [Printf ([CHR 0x0A] @ file_bytes sample_state @ [CHR 0x0A])] \<and>
   read_err unreadable_state = Some ''no such file or directory'' \<and>
   print_RunE unreadable_state =
     (Failure \<lparr>Msg = ''Failed to read configuration file'',
               Err = ''no such file or directory''\<rparr>, unreadable_state)"
proof -
  have r: "read_err sample_state = None" "trace sample_state = []"
    by (simp_all add: sample_state_def)
  have u: "read_err unreadable_state = Some ''no such file or directory''"
    by (simp add: unreadable_state_def)
  from print_emits_file [of sample_state] print_emits_file [of unreadable_state, OF] r u
  show ?thesis by simp
qed

end
